theory Spec2Isabelle
  imports Complex_Main "HOL-Library.Multiset"
begin

section \<open>Marker clustering of the map view (src/components/MapView.tsx)\<close>

subsection \<open>JavaScript numbers\<close>

text \<open>
  A JavaScript \<^verbatim>\<open>number\<close> is modelled as a real number or one of the three special
  values. Arithmetic on the real part is exact: rounding of IEEE doubles is not modelled,
  and neither is the sign of zero (the code never divides by a zero: its divisors are
  50, 30, a power of two, an array length of at least one and the grid size).
\<close>

datatype number = Fin real | PosInfinity | NegInfinity | NaN

text \<open>Unary minus, \<^verbatim>\<open>a + b\<close>, \<^verbatim>\<open>a - b\<close> and \<^verbatim>\<open>a / b\<close>.\<close>

fun js_neg :: "number \<Rightarrow> number" where
  "js_neg (Fin a) = Fin (- a)"
| "js_neg PosInfinity = NegInfinity"
| "js_neg NegInfinity = PosInfinity"
| "js_neg NaN = NaN"

fun js_add :: "number \<Rightarrow> number \<Rightarrow> number" where
  "js_add NaN _ = NaN"
| "js_add _ NaN = NaN"
| "js_add (Fin a) (Fin b) = Fin (a + b)"
| "js_add PosInfinity NegInfinity = NaN"
| "js_add NegInfinity PosInfinity = NaN"
| "js_add PosInfinity _ = PosInfinity"
| "js_add NegInfinity _ = NegInfinity"
| "js_add (Fin a) b = b"

definition js_sub :: "number \<Rightarrow> number \<Rightarrow> number" where
  "js_sub a b = js_add a (js_neg b)"

fun js_div :: "number \<Rightarrow> number \<Rightarrow> number" where
  "js_div NaN _ = NaN"
| "js_div _ NaN = NaN"
| "js_div (Fin a) (Fin b) =
     (if b = 0 then (if a = 0 then NaN else if 0 < a then PosInfinity else NegInfinity)
      else Fin (a / b))"
| "js_div (Fin a) _ = Fin 0"
| "js_div PosInfinity (Fin b) = (if 0 \<le> b then PosInfinity else NegInfinity)"
| "js_div NegInfinity (Fin b) = (if 0 \<le> b then NegInfinity else PosInfinity)"
| "js_div _ _ = NaN"

text \<open>
  \<^verbatim>\<open>Math.max(a, b)\<close> and \<^verbatim>\<open>Math.min(a, b)\<close>: NaN if either argument is NaN. With a
  spread array, \<^verbatim>\<open>Math.max(...xs)\<close> starts from \<^verbatim>\<open>-Infinity\<close> and \<^verbatim>\<open>Math.min(...xs)\<close>
  from \<^verbatim>\<open>Infinity\<close>, which are the results on an empty array.
\<close>

fun Math_max2 :: "number \<Rightarrow> number \<Rightarrow> number" where
  "Math_max2 NaN _ = NaN"
| "Math_max2 _ NaN = NaN"
| "Math_max2 PosInfinity _ = PosInfinity"
| "Math_max2 _ PosInfinity = PosInfinity"
| "Math_max2 NegInfinity b = b"
| "Math_max2 a NegInfinity = a"
| "Math_max2 (Fin a) (Fin b) = Fin (max a b)"

fun Math_min2 :: "number \<Rightarrow> number \<Rightarrow> number" where
  "Math_min2 NaN _ = NaN"
| "Math_min2 _ NaN = NaN"
| "Math_min2 NegInfinity _ = NegInfinity"
| "Math_min2 _ NegInfinity = NegInfinity"
| "Math_min2 PosInfinity b = b"
| "Math_min2 a PosInfinity = a"
| "Math_min2 (Fin a) (Fin b) = Fin (min a b)"

definition Math_max :: "number list \<Rightarrow> number" where
  "Math_max xs = foldl Math_max2 NegInfinity xs"

definition Math_min :: "number list \<Rightarrow> number" where
  "Math_min xs = foldl Math_min2 PosInfinity xs"

text \<open>\<^verbatim>\<open>Math.floor\<close>; the special values are their own floor.\<close>

fun Math_floor :: "number \<Rightarrow> number" where
  "Math_floor (Fin a) = Fin (of_int \<lfloor>a\<rfloor>)"
| "Math_floor x = x"

text \<open>\<^verbatim>\<open>Math.pow(2, e)\<close> for an integer exponent, which the code keeps non-negative.\<close>

definition Math_pow2 :: "int \<Rightarrow> number" where
  "Math_pow2 e = (if 0 \<le> e then Fin (2 ^ nat e) else Fin (1 / 2 ^ nat (- e)))"

text \<open>\<^verbatim>\<open>a < b\<close> on numbers: false as soon as one side is NaN.\<close>

fun js_less :: "number \<Rightarrow> number \<Rightarrow> bool" where
  "js_less NaN _ = False"
| "js_less _ NaN = False"
| "js_less (Fin a) (Fin b) = (a < b)"
| "js_less NegInfinity NegInfinity = False"
| "js_less NegInfinity _ = True"
| "js_less _ PosInfinity = True"
| "js_less _ _ = False"

text \<open>
  \<^verbatim>\<open>x || 0\<close> on an optional number: \<^verbatim>\<open>undefined\<close>, \<^verbatim>\<open>NaN\<close> and \<^verbatim>\<open>0\<close> are falsy and
  give 0, every other number is kept.
\<close>

fun or0 :: "number option \<Rightarrow> number" where
  "or0 None = Fin 0"
| "or0 (Some NaN) = Fin 0"
| "or0 (Some x) = x"

text \<open>Decimal digits of an array length, as a template literal prints it.\<close>

fun digits :: "nat \<Rightarrow> string" where
  "digits n =
     (if n < 10 then [''0123456789'' ! n] else digits (n div 10) @ [''0123456789'' ! (n mod 10)])"

subsection \<open>The Location interface\<close>

datatype Location = Location
  (id_loc: string)
  (name: string)
  (lat: number)
  (lng: number)
  (category: string)
  (reflectivity: "number option")
  (rainfall_rate: "number option")
  (altitude: "number option")
  (clusterSize: "nat option")
  (clusterPoints: "Location list option")
  (description: "string option")

subsection \<open>clusterNearbyMarkers\<close>

text \<open>
  The grid size, lines 799 to 808 of the source:
  \<^verbatim>\<open>
  const lats = locations.map(loc => loc.lat);
  const lngs = locations.map(loc => loc.lng);
  const latRange = Math.max(...lats) - Math.min(...lats);
  const lngRange = Math.max(...lngs) - Math.min(...lngs);
  const baseGridSize = Math.max(latRange, lngRange) / (zoomLevel >= 12 ? 50 : 30);
  const zoomFactor = Math.pow(2, Math.max(0, zoomLevel - 8));
  const gridSize = Math.max(0.0005, baseGridSize / zoomFactor);
  \<close>
  The zoom level is an integer, as the map view reports it. The limit an engine puts on
  the number of arguments of a spread call is not modelled.
\<close>

definition latRange :: "Location list \<Rightarrow> number" where
  "latRange locations =
     (let lats = map lat locations in js_sub (Math_max lats) (Math_min lats))"

definition lngRange :: "Location list \<Rightarrow> number" where
  "lngRange locations =
     (let lngs = map lng locations in js_sub (Math_max lngs) (Math_min lngs))"

definition baseGridSize :: "Location list \<Rightarrow> int \<Rightarrow> number" where
  "baseGridSize locations zoomLevel =
     js_div (Math_max2 (latRange locations) (lngRange locations))
       (Fin (if 12 \<le> zoomLevel then 50 else 30))"

definition zoomFactor :: "int \<Rightarrow> number" where
  "zoomFactor zoomLevel = Math_pow2 (max 0 (zoomLevel - 8))"

definition gridSize :: "Location list \<Rightarrow> int \<Rightarrow> number" where
  "gridSize locations zoomLevel =
     Math_max2 (Fin 0.0005) (js_div (baseGridSize locations zoomLevel) (zoomFactor zoomLevel))"

text \<open>
  The key of a location's cell. The source builds the string
  \<^verbatim>\<open>`${gridX}_${gridY}`\<close> from the two floors; two such strings are equal exactly when
  both floors are, so the pair stands for the string.
\<close>

type_synonym key = "number \<times> number"

definition cellKey :: "number \<Rightarrow> Location \<Rightarrow> key" where
  "cellKey gs location =
     (let gridX = Math_floor (js_div (lat location) gs);
          gridY = Math_floor (js_div (lng location) gs)
      in (gridX, gridY))"

text \<open>
  The object \<^verbatim>\<open>clusters\<close> is a list of keys with their arrays, in the order in which
  the keys were first written: \<^verbatim>\<open>Object.values\<close> visits string keys that are not array
  indices in insertion order. One step of the \<^verbatim>\<open>forEach\<close> is
  \<^verbatim>\<open>if (!clusters[key]) clusters[key] = []; clusters[key].push(location);\<close>
\<close>

fun push :: "(key \<times> Location list) list \<Rightarrow> key \<Rightarrow> Location \<Rightarrow> (key \<times> Location list) list" where
  "push [] k location = [(k, [location])]"
| "push ((k', ps) # rest) k location =
     (if k' = k then (k', ps @ [location]) # rest else (k', ps) # push rest k location)"

definition clusters :: "number \<Rightarrow> Location list \<Rightarrow> (key \<times> Location list) list" where
  "clusters gs locations =
     foldl (\<lambda>acc location. push acc (cellKey gs location) location) [] locations"

definition Object_values :: "(key \<times> Location list) list \<Rightarrow> Location list list" where
  "Object_values obj = map snd obj"

text \<open>
  The callback of \<^verbatim>\<open>Object.values(clusters).map\<close> returns a location, an array of
  locations, or the cluster representative; \<^verbatim>\<open>.flat()\<close> then splices the arrays.
  Reading \<^verbatim>\<open>cluster[0].id\<close> of an empty array throws a TypeError.
\<close>

datatype error = TypeError

datatype mapped = Obj Location | Arr "Location list"

definition mean_of :: "(Location \<Rightarrow> number) \<Rightarrow> Location list \<Rightarrow> number" where
  "mean_of field cluster =
     js_div (foldl (\<lambda>sum loc. js_add sum (field loc)) (Fin 0) cluster)
       (Fin (real (length cluster)))"

definition representative ::
  "(number \<Rightarrow> nat \<Rightarrow> string) \<Rightarrow> Location \<Rightarrow> Location list \<Rightarrow> Location" where
  "representative toFixed first cluster =
     (let avgLat = mean_of lat cluster;
          avgLng = mean_of lng cluster;
          avgReflectivity = mean_of (\<lambda>loc. or0 (reflectivity loc)) cluster;
          avgRainfall = mean_of (\<lambda>loc. or0 (rainfall_rate loc)) cluster;
          avgAltitude = mean_of (\<lambda>loc. or0 (altitude loc)) cluster
      in Location
           (''cluster_'' @ id_loc first @ ''_'' @ digits (length cluster))
           (''Cluster ('' @ digits (length cluster) @ '' points)'')
           avgLat
           avgLng
           ''cluster''
           (Some avgReflectivity)
           (Some avgRainfall)
           (Some avgAltitude)
           (Some (length cluster))
           (Some cluster)
           (Some (''Avg Reflectivity: '' @ toFixed avgReflectivity 1 @ ''dBZ, Avg Rainfall: ''
                  @ toFixed avgRainfall 1 @ ''mm/h'')))"

definition mapCluster ::
  "(number \<Rightarrow> nat \<Rightarrow> string) \<Rightarrow> int \<Rightarrow> Location list \<Rightarrow> error + mapped" where
  "mapCluster toFixed zoomLevel cluster =
     (if length cluster = 1 \<or> (12 \<le> zoomLevel \<and> length cluster \<le> 3)
      then (if length cluster = 1 then Inr (Obj (cluster ! 0))
            else Inr (Arr (map (\<lambda>point. point) cluster)))
      else (case cluster of
              [] \<Rightarrow> Inl TypeError
            | first # _ \<Rightarrow> Inr (Obj (representative toFixed first cluster))))"

fun map_all :: "('a \<Rightarrow> error + 'b) \<Rightarrow> 'a list \<Rightarrow> error + 'b list" where
  "map_all f [] = Inr []"
| "map_all f (x # xs) =
     (case f x of
        Inl e \<Rightarrow> Inl e
      | Inr y \<Rightarrow> (case map_all f xs of Inl e \<Rightarrow> Inl e | Inr ys \<Rightarrow> Inr (y # ys)))"

fun flat :: "mapped list \<Rightarrow> Location list" where
  "flat [] = []"
| "flat (Obj l # ms) = l # flat ms"
| "flat (Arr ls # ms) = ls @ flat ms"

text \<open>
  \<^verbatim>\<open>const clusteredPoints = Object.values(clusters).map(cluster => ...).flat()\<close>,
  as a function of the object and of the zoom level the callback reads.
\<close>

definition clusteredPoints ::
  "(number \<Rightarrow> nat \<Rightarrow> string) \<Rightarrow> int \<Rightarrow> (key \<times> Location list) list \<Rightarrow> error + Location list" where
  "clusteredPoints toFixed zoomLevel obj =
     (case map_all (mapCluster toFixed zoomLevel) (Object_values obj) of
        Inl e \<Rightarrow> Inl e
      | Inr results \<Rightarrow> Inr (flat results))"

text \<open>
  The whole function. \<^verbatim>\<open>toFixed\<close> stands for \<^verbatim>\<open>Number.prototype.toFixed\<close>, which only
  the description text of a cluster marker uses; every result below holds for any
  such formatter.
\<close>

definition clusterNearbyMarkers ::
  "(number \<Rightarrow> nat \<Rightarrow> string) \<Rightarrow> Location list \<Rightarrow> int \<Rightarrow> error + Location list" where
  "clusterNearbyMarkers toFixed locations zoomLevel =
     (let gs = gridSize locations zoomLevel;
          cs = clusters gs locations
      in clusteredPoints toFixed zoomLevel cs)"

subsection \<open>The render policy\<close>

text \<open>
  \<^verbatim>\<open>shouldUseCluster = filteredLocations.length > 100\<close> and the memoised
  \<^verbatim>\<open>locationsToRender\<close>, lines 792 and 988 to 1005; the rendering loop tells a cluster
  marker from a point by \<^verbatim>\<open>location.clusterSize && location.clusterSize > 1\<close>, line 1183.
  The spreads that \<^verbatim>\<open>locationsToRender\<close> computes first are never read and are left
  out.
\<close>

definition shouldUseCluster :: "Location list \<Rightarrow> bool" where
  "shouldUseCluster filteredLocations = (100 < length filteredLocations)"

definition locationsToRender ::
  "(number \<Rightarrow> nat \<Rightarrow> string) \<Rightarrow> Location list \<Rightarrow> int \<Rightarrow> error + Location list" where
  "locationsToRender toFixed filteredLocations mapZoom =
     (let locations = filteredLocations
      in if shouldUseCluster filteredLocations \<and> 100 < length locations
         then clusterNearbyMarkers toFixed locations mapZoom
         else Inr locations)"

definition isCluster :: "Location \<Rightarrow> bool" where
  "isCluster location = (case clusterSize location of None \<Rightarrow> False | Some n \<Rightarrow> 1 < n)"

text \<open>
  The points a rendered item stands for: the retained array of a cluster marker, the
  item itself otherwise.
\<close>

definition members :: "Location \<Rightarrow> Location list" where
  "members item =
     (if isCluster item then (case clusterPoints item of None \<Rightarrow> [] | Some ps \<Rightarrow> ps)
      else [item])"

subsection \<open>Auxiliary definitions\<close>

text \<open>
  What one cell contributes to the flattened result: its points as they are, or the one
  representative. It agrees with the callback on every non-empty array, which is shown
  below, and is used to describe the result of the whole function.
\<close>

definition emits :: "(number \<Rightarrow> nat \<Rightarrow> string) \<Rightarrow> int \<Rightarrow> Location list \<Rightarrow> Location list" where
  "emits toFixed zoomLevel cluster =
     (if length cluster = 1 \<or> (12 \<le> zoomLevel \<and> length cluster \<le> 3) then cluster
      else [representative toFixed (hd cluster) cluster])"

text \<open>
  The cell size as the specification words it, over the real coordinates of the points:
  the larger spread divided by 50 from zoom 12 on and by 30 below, compressed by
  \<open>2 ^ max 0 (zoomLevel - 8)\<close>, and never less than 0.0005.
\<close>

definition spec_gridSize :: "real list \<Rightarrow> real list \<Rightarrow> int \<Rightarrow> real" where
  "spec_gridSize lats lngs zoomLevel =
     (let latSpread = Max (set lats) - Min (set lats);
          lngSpread = Max (set lngs) - Min (set lngs);
          divisor = (if 12 \<le> zoomLevel then 50 else 30);
          baseGridSize = max latSpread lngSpread / divisor;
          zoomFactor = 2 ^ nat (max 0 (zoomLevel - 8))
      in max 0.0005 (baseGridSize / zoomFactor))"

text \<open>
  The unweighted arithmetic mean, and a missing measurement read as 0.
\<close>

definition mean :: "real list \<Rightarrow> real" where
  "mean xs = sum_list xs / real (length xs)"

definition or_zero :: "real option \<Rightarrow> real" where
  "or_zero v = (case v of None \<Rightarrow> 0 | Some r \<Rightarrow> r)"

text \<open>
  Sample inputs. \<open>sampleLocations\<close> is the fallback list of the source (lines 89 to
  140); \<open>overview\<close> has one point alone in its cell and three points sharing a cell,
  one of them without a reflectivity; \<open>detail\<close> has two points sharing a cell.
  \<open>overview_marker\<close> is the cluster marker computed for the shared cell of
  \<open>overview\<close> below zoom 12.
\<close>

definition point :: "string \<Rightarrow> real \<Rightarrow> real \<Rightarrow> real option \<Rightarrow> real option \<Rightarrow> Location" where
  "point i la lo dbz rain =
     Location i ''Radar Point'' (Fin la) (Fin lo) ''low_rain''
       (map_option Fin dbz) (map_option Fin rain) None None None None"

definition plain_toFixed :: "number \<Rightarrow> nat \<Rightarrow> string" where
  "plain_toFixed x n = ''?''"

definition sampleLocations :: "Location list" where
  "sampleLocations =
     [Location ''sample_1'' ''Kolkata Weather Station'' (Fin 22.5726) (Fin 88.3639) ''high_rain''
        (Some (Fin 45.2)) (Some (Fin 12.5)) (Some (Fin 6)) None None None,
      Location ''sample_2'' ''Howrah Station'' (Fin 22.5958) (Fin 88.2636) ''medium_rain''
        (Some (Fin 32.1)) (Some (Fin 5.2)) (Some (Fin 8)) None None None,
      Location ''sample_3'' ''Salt Lake Station'' (Fin 22.5744) (Fin 88.4326) ''low_rain''
        (Some (Fin 18.5)) (Some (Fin 0.8)) (Some (Fin 4)) None None None,
      Location ''sample_4'' ''Jadavpur Station'' (Fin 22.4987) (Fin 88.3731) ''medium_rain''
        (Some (Fin 28.7)) (Some (Fin 3.1)) (Some (Fin 12)) None None None,
      Location ''sample_5'' ''Dumdum Station'' (Fin 22.6405) (Fin 88.4169) ''high_rain''
        (Some (Fin 52.3)) (Some (Fin 18.9)) (Some (Fin 5)) None None None]"

definition overview :: "Location list" where
  "overview =
     [point ''a'' 0 0 (Some 5) (Some 4),
      point ''b'' 1 1 (Some 10) (Some 1),
      point ''c'' 1 1 (Some 20) (Some 2),
      point ''d'' 1 1 None (Some 3)]"

definition detail :: "Location list" where
  "detail = [point ''a'' 0 0 None None, point ''b'' 1 1 None None, point ''c'' 1 1 None None]"

definition overview_marker :: Location where
  "overview_marker =
     Location ''cluster_b_3'' ''Cluster (3 points)'' (Fin 1) (Fin 1) ''cluster''
       (Some (Fin 10)) (Some (Fin 2)) (Some (Fin 0)) (Some 3)
       (Some [point ''b'' 1 1 (Some 10) (Some 1), point ''c'' 1 1 (Some 20) (Some 2),
              point ''d'' 1 1 None (Some 3)])
       (Some ''Avg Reflectivity: ?dBZ, Avg Rainfall: ?mm/h'')"

section \<open>Properties\<close>

subsection \<open>The cells\<close>

lemma push_keys:
  "map fst (push cs k l) = (if k \<in> set (map fst cs) then map fst cs else map fst cs @ [k])"
proof (induction cs)
  case Nil
  show ?case by simp
next
  case (Cons c cs)
  obtain k' ps where c: "c = (k', ps)" by (cases c)
  show ?case using Cons.IH by (simp add: c)
qed

lemma push_distinct: "distinct (map fst cs) \<Longrightarrow> distinct (map fst (push cs k l))"
  by (simp add: push_keys)

lemma push_map_of:
  "map_of (push cs k l) =
     (map_of cs)(k \<mapsto> (case map_of cs k of None \<Rightarrow> [l] | Some ps \<Rightarrow> ps @ [l]))"
  by (induction cs) (auto simp: fun_eq_iff)

lemma push_mset:
  "mset (concat (map snd (push cs k l))) = mset (concat (map snd cs)) + {#l#}"
  by (induction cs) auto

lemma clusters_snoc:
  "clusters gs (xs @ [x]) = push (clusters gs xs) (cellKey gs x) x"
  by (simp add: clusters_def)

lemma clusters_distinct: "distinct (map fst (clusters gs xs))"
  by (induction xs rule: rev_induct) (simp_all add: clusters_snoc push_distinct, simp add: clusters_def)

lemma clusters_map_of:
  "map_of (clusters gs xs) k =
     (if \<exists>l\<in>set xs. cellKey gs l = k then Some (filter (\<lambda>l. cellKey gs l = k) xs) else None)"
proof (induction xs arbitrary: k rule: rev_induct)
  case Nil
  show ?case by (simp add: clusters_def)
next
  case (snoc x xs)
  show ?case
    by (auto simp: clusters_snoc push_map_of snoc.IH filter_empty_conv)
qed

lemma clusters_mset: "mset (concat (map snd (clusters gs xs))) = mset xs"
  by (induction xs rule: rev_induct) (simp_all add: clusters_snoc push_mset, simp add: clusters_def)

lemma clusters_entry:
  "(k, ps) \<in> set (clusters gs xs) \<longleftrightarrow>
     (\<exists>l\<in>set xs. cellKey gs l = k) \<and> ps = filter (\<lambda>l. cellKey gs l = k) xs"
proof -
  have "(k, ps) \<in> set (clusters gs xs) \<longleftrightarrow> map_of (clusters gs xs) k = Some ps"
    using clusters_distinct [of gs xs] by simp
  then show ?thesis by (auto simp: clusters_map_of)
qed

lemma clusters_nonempty: "ps \<in> set (Object_values (clusters gs xs)) \<Longrightarrow> ps \<noteq> []"
proof -
  assume "ps \<in> set (Object_values (clusters gs xs))"
  then obtain k where "(k, ps) \<in> set (clusters gs xs)"
    by (auto simp: Object_values_def)
  then have k: "\<exists>l\<in>set xs. cellKey gs l = k" and ps: "ps = filter (\<lambda>l. cellKey gs l = k) xs"
    by (simp_all add: clusters_entry)
  from k obtain x where "x \<in> set xs" "cellKey gs x = k" by auto
  then have "x \<in> set ps" by (simp add: ps)
  then show ?thesis by auto
qed

lemma clusters_subset:
  "c \<in> set (Object_values (clusters gs xs)) \<Longrightarrow> set c \<subseteq> set xs"
  by (auto simp: Object_values_def clusters_entry)

lemma clusters_entry_props:
  assumes "(k, ps) \<in> set (clusters gs xs)"
  shows "ps \<noteq> []" and "set ps \<subseteq> set xs" and "\<forall>p\<in>set ps. cellKey gs p = k"
    and "ps = filter (\<lambda>l. cellKey gs l = k) xs"
proof -
  from assms have "ps \<in> set (Object_values (clusters gs xs))"
    by (force simp: Object_values_def)
  then show "ps \<noteq> []" and "set ps \<subseteq> set xs"
    using clusters_nonempty clusters_subset by blast+
  from assms show "ps = filter (\<lambda>l. cellKey gs l = k) xs" by (simp add: clusters_entry)
  then show "\<forall>p\<in>set ps. cellKey gs p = k" by (metis (mono_tags, lifting) mem_Collect_eq set_filter)
qed

lemma clusters_entry_unique:
  assumes "(k, ps) \<in> set (clusters gs xs)" "(k, ps') \<in> set (clusters gs xs)"
  shows "ps = ps'"
  using assms by (simp add: clusters_entry)

lemma clusters_length: "length (concat (Object_values (clusters gs xs))) = length xs"
proof -
  have "size (mset (concat (map snd (clusters gs xs)))) = size (mset xs)"
    by (simp only: clusters_mset)
  then show ?thesis by (simp add: Object_values_def)
qed

subsection \<open>The callback and the flattened result\<close>

lemma emits_points:
  "length c = 1 \<or> (12 \<le> z \<and> length c \<le> 3) \<Longrightarrow> emits tf z c = c"
  unfolding emits_def by (rule if_P)

lemma emits_representative:
  "\<not> (length c = 1 \<or> (12 \<le> z \<and> length c \<le> 3)) \<Longrightarrow>
     emits tf z c = [representative tf (hd c) c]"
  unfolding emits_def by (rule if_not_P)

lemma mapCluster_emits:
  assumes "cluster \<noteq> []"
  shows "\<exists>m. mapCluster tf z cluster = Inr m \<and> flat [m] = emits tf z cluster"
proof (cases "length cluster = 1")
  case True
  then obtain p where "cluster = [p]" by (cases cluster) auto
  then show ?thesis by (simp add: mapCluster_def emits_def)
next
  case False
  obtain p ps where c: "cluster = p # ps" using assms by (cases cluster) auto
  show ?thesis using False by (simp add: mapCluster_def emits_def c)
qed

lemma flat_Cons: "flat (m # ms) = flat [m] @ flat ms"
  by (cases m) simp_all

lemma map_all_emits:
  assumes "\<forall>c\<in>set cs. c \<noteq> []"
  shows "\<exists>ms. map_all (mapCluster tf z) cs = Inr ms \<and> flat ms = concat (map (emits tf z) cs)"
  using assms
proof (induction cs)
  case Nil
  show ?case by simp
next
  case (Cons c cs)
  from Cons.prems have "c \<noteq> []" by simp
  then obtain m where m: "mapCluster tf z c = Inr m" "flat [m] = emits tf z c"
    using mapCluster_emits by blast
  from Cons obtain ms where ms: "map_all (mapCluster tf z) cs = Inr ms"
    "flat ms = concat (map (emits tf z) cs)" by auto
  have "flat (m # ms) = emits tf z c @ concat (map (emits tf z) cs)"
    using flat_Cons [of m ms] m(2) ms(2) by simp
  then show ?case by (simp add: m(1) ms(1))
qed

lemma clusteredPoints_emits:
  assumes "\<forall>c\<in>set (Object_values obj). c \<noteq> []"
  shows "clusteredPoints tf z obj = Inr (concat (map (emits tf z) (Object_values obj)))"
proof -
  from assms obtain ms where "map_all (mapCluster tf z) (Object_values obj) = Inr ms"
    "flat ms = concat (map (emits tf z) (Object_values obj))"
    using map_all_emits by blast
  then show ?thesis by (simp add: clusteredPoints_def)
qed

lemma clusterNearbyMarkers_emits:
  "clusterNearbyMarkers tf locations z =
     Inr (concat (map (emits tf z) (Object_values (clusters (gridSize locations z) locations))))"
proof -
  let ?cs = "clusters (gridSize locations z) locations"
  have "\<forall>c\<in>set (Object_values ?cs). c \<noteq> []" using clusters_nonempty by blast
  then show ?thesis by (simp add: clusterNearbyMarkers_def Let_def clusteredPoints_emits)
qed

lemma isCluster_representative:
  "isCluster (representative tf p c) \<longleftrightarrow> 2 \<le> length c"
  by (auto simp: isCluster_def representative_def Let_def)

lemma members_representative:
  "2 \<le> length c \<Longrightarrow> members (representative tf p c) = c"
  by (simp add: members_def isCluster_representative) (simp add: representative_def Let_def)

lemma members_plain: "\<not> isCluster p \<Longrightarrow> members p = [p]"
  by (simp add: members_def)

lemma concat_members_plain:
  "\<forall>p\<in>set c. \<not> isCluster p \<Longrightarrow> concat (map members c) = c"
  by (induction c) (simp_all add: members_plain)

lemma emits_members:
  assumes "c \<noteq> []" "\<forall>p\<in>set c. \<not> isCluster p"
  shows "concat (map members (emits tf z c)) = c"
proof (cases "length c = 1 \<or> (12 \<le> z \<and> length c \<le> 3)")
  case True
  then have "emits tf z c = c" by (rule emits_points)
  then show ?thesis using assms(2) by (simp add: concat_members_plain)
next
  case False
  then have "length c \<noteq> 1" by simp
  moreover have "length c \<noteq> 0" using assms(1) by simp
  ultimately have "2 \<le> length c" by arith
  then have "members (representative tf (hd c) c) = c" by (rule members_representative)
  moreover have "emits tf z c = [representative tf (hd c) c]"
    using False by (rule emits_representative)
  ultimately show ?thesis by simp
qed

lemma concat_emits_members:
  assumes "\<forall>c\<in>set cs. c \<noteq> [] \<and> (\<forall>p\<in>set c. \<not> isCluster p)"
  shows "concat (map members (concat (map (emits tf z) cs))) = concat cs"
  using assms by (induction cs) (simp_all add: emits_members)

lemma emits_cluster_item:
  assumes "c \<noteq> []" "\<forall>p\<in>set c. \<not> isCluster p" "i \<in> set (emits tf z c)" "isCluster i"
  shows "i = representative tf (hd c) c \<and> 2 \<le> length c \<and> \<not> (12 \<le> z \<and> length c \<le> 3)"
proof (cases "length c = 1 \<or> (12 \<le> z \<and> length c \<le> 3)")
  case True
  then have "emits tf z c = c" by (rule emits_points)
  with assms show ?thesis by auto
next
  case False
  then have e: "emits tf z c = [representative tf (hd c) c]" by (rule emits_representative)
  from False have "length c \<noteq> 1" by simp
  moreover have "length c \<noteq> 0" using assms(1) by simp
  ultimately have "2 \<le> length c" by arith
  with e assms(3) False show ?thesis by simp
qed

lemma emits_plain_item:
  assumes "c \<noteq> []" "i \<in> set (emits tf z c)" "\<not> isCluster i"
  shows "i \<in> set c \<and> emits tf z c = c"
proof (cases "length c = 1 \<or> (12 \<le> z \<and> length c \<le> 3)")
  case True
  then have "emits tf z c = c" by (rule emits_points)
  with assms show ?thesis by simp
next
  case False
  then have e: "emits tf z c = [representative tf (hd c) c]" by (rule emits_representative)
  from False have "length c \<noteq> 1" by simp
  moreover have "length c \<noteq> 0" using assms(1) by simp
  ultimately have "2 \<le> length c" by arith
  then have "isCluster (representative tf (hd c) c)" by (simp add: isCluster_representative)
  with e assms show ?thesis by simp
qed

text \<open>every output item comes from one entry of clusters\<close>
lemma out_item_entry:
  assumes "i \<in> set (concat (map (emits tf z) (Object_values cs)))"
  shows "\<exists>k ps. (k, ps) \<in> set cs \<and> i \<in> set (emits tf z ps)"
proof -
  from assms obtain e where "e \<in> set cs" "i \<in> set (emits tf z (snd e))"
    by (auto simp: Object_values_def)
  then have "(fst e, snd e) \<in> set cs \<and> i \<in> set (emits tf z (snd e))" by simp
  then show ?thesis by blast
qed

lemma entry_out_items:
  assumes "(k, ps) \<in> set cs"
  shows "set (emits tf z ps) \<subseteq> set (concat (map (emits tf z) (Object_values cs)))"
  using assms by (force simp: Object_values_def)

lemma concat_select:
  assumes "distinct (map fst cs)" "(k, ps) \<in> set cs"
  shows "concat (map (\<lambda>e. if fst e = k then snd e else []) cs) = ps"
  using assms
proof (induction cs)
  case Nil
  then show ?case by simp
next
  case (Cons e cs)
  show ?case
  proof (cases "fst e = k")
    case True
    then have notin: "k \<notin> fst ` set cs" using Cons.prems(1) by auto
    then have "\<forall>e'\<in>set cs. fst e' \<noteq> k" by auto
    then have "concat (map (\<lambda>e. if fst e = k then snd e else []) cs) = []"
      by (induction cs) auto
    moreover have "e = (k, ps)" using True Cons.prems notin
      by (metis fst_conv image_eqI prod.collapse set_ConsD)
    ultimately show ?thesis by simp
  next
    case False
    then have "(k, ps) \<in> set cs" using Cons.prems(2) by auto
    then show ?thesis using Cons False by simp
  qed
qed

lemma filter_concat_map:
  "filter P (concat (map f xs)) = concat (map (\<lambda>x. filter P (f x)) xs)"
  by (induction xs) simp_all

text \<open>the individual items of a cell whose points are emitted as they are\<close>
lemma individuals_of_cell:
  assumes plain: "\<forall>p\<in>set locations. \<not> isCluster p"
    and entry: "(k, ps) \<in> set (clusters gs locations)"
    and pts: "emits tf z ps = ps"
  shows "filter (\<lambda>i. \<not> isCluster i \<and> cellKey gs i = k)
           (concat (map (emits tf z) (Object_values (clusters gs locations)))) = ps"
proof -
  let ?P = "\<lambda>i. \<not> isCluster i \<and> cellKey gs i = k"
  let ?cs = "clusters gs locations"
  have each: "filter ?P (emits tf z (snd e)) = (if fst e = k then snd e else [])"
    if e: "e \<in> set ?cs" for e
  proof -
    have e': "(fst e, snd e) \<in> set ?cs" using e by simp
    note props = clusters_entry_props [OF e']
    show ?thesis
    proof (cases "fst e = k")
      case True
      then have "snd e = ps" using e' entry clusters_entry_unique by blast
      moreover have "filter ?P ps = ps"
        using clusters_entry_props(2,3) [OF entry] plain by (auto simp: filter_id_conv)
      ultimately show ?thesis using True pts by simp
    next
      case False
      have "\<not> ?P i" if i: "i \<in> set (emits tf z (snd e))" for i
      proof
        assume P: "?P i"
        then have "i \<in> set (snd e)" using emits_plain_item [OF props(1) i] by simp
        then have "cellKey gs i = fst e" using props(3) by simp
        with P False show False by simp
      qed
      then have "filter ?P (emits tf z (snd e)) = []" by (simp add: filter_empty_conv)
      with False show ?thesis by simp
    qed
  qed
  have "filter ?P (concat (map (emits tf z) (Object_values ?cs)))
      = concat (map (\<lambda>e. filter ?P (emits tf z (snd e))) ?cs)"
    by (simp add: Object_values_def filter_concat_map comp_def)
  also have "\<dots> = concat (map (\<lambda>e. if fst e = k then snd e else []) ?cs)"
    using each by (simp cong: map_cong)
  also have "\<dots> = ps"
    using clusters_distinct entry by (rule concat_select)
  finally show ?thesis .
qed

text \<open>a cluster item of the output is the representative of an entry\<close>
lemma cluster_item_entry:
  assumes plain: "\<forall>p\<in>set locations. \<not> isCluster p"
    and i: "i \<in> set (concat (map (emits tf z) (Object_values (clusters gs locations))))"
    and c: "isCluster i"
  shows "\<exists>k ps. (k, ps) \<in> set (clusters gs locations) \<and> i = representative tf (hd ps) ps
           \<and> 2 \<le> length ps \<and> \<not> (12 \<le> z \<and> length ps \<le> 3)"
proof -
  from i obtain k ps where e: "(k, ps) \<in> set (clusters gs locations)"
    and m: "i \<in> set (emits tf z ps)"
    using out_item_entry by blast
  note props = clusters_entry_props [OF e]
  have "\<forall>p\<in>set ps. \<not> isCluster p" using props(2) plain by blast
  from emits_cluster_item [OF props(1) this m c] e show ?thesis by blast
qed

lemma no_cluster_of_cell:
  assumes plain: "\<forall>p\<in>set locations. \<not> isCluster p"
    and entry: "(k, ps) \<in> set (clusters gs locations)"
    and pts: "length ps = 1 \<or> (12 \<le> z \<and> length ps \<le> 3)"
    and i: "i \<in> set (concat (map (emits tf z) (Object_values (clusters gs locations))))"
    and c: "isCluster i"
  shows "\<forall>p\<in>set (members i). cellKey gs p \<noteq> k"
proof
  fix p assume p: "p \<in> set (members i)"
  from cluster_item_entry [OF plain i c] obtain k' ps' where
    e': "(k', ps') \<in> set (clusters gs locations)" and r: "i = representative tf (hd ps') ps'"
    and l: "2 \<le> length ps'" and n: "\<not> (12 \<le> z \<and> length ps' \<le> 3)" by blast
  have "members i = ps'" using r l by (simp add: members_representative)
  then have kp: "cellKey gs p = k'" using p clusters_entry_props(3) [OF e'] by simp
  show "cellKey gs p \<noteq> k"
  proof
    assume "cellKey gs p = k"
    then have "k' = k" using kp by simp
    then have "ps' = ps" using e' entry clusters_entry_unique by blast
    with pts l n show False by auto
  qed
qed

lemma emits_length:
  assumes "c \<noteq> []" "\<forall>p\<in>set c. \<not> isCluster p"
  shows "length (emits tf z c) \<le> length c"
    and "length (emits tf z c) < length c \<longleftrightarrow> (\<exists>i\<in>set (emits tf z c). isCluster i)"
proof -
  show "length (emits tf z c) \<le> length c"
  proof (cases "length c = 1 \<or> (12 \<le> z \<and> length c \<le> 3)")
    case True
    then have "emits tf z c = c" by (rule emits_points)
    then show ?thesis by simp
  next
    case False
    then have "emits tf z c = [representative tf (hd c) c]" by (rule emits_representative)
    moreover have "1 \<le> length c" using assms(1) by (cases c) simp_all
    ultimately show ?thesis by simp
  qed
  show "length (emits tf z c) < length c \<longleftrightarrow> (\<exists>i\<in>set (emits tf z c). isCluster i)"
  proof (cases "length c = 1 \<or> (12 \<le> z \<and> length c \<le> 3)")
    case True
    then have "emits tf z c = c" by (rule emits_points)
    then show ?thesis using assms(2) by simp
  next
    case False
    then have e: "emits tf z c = [representative tf (hd c) c]" by (rule emits_representative)
    from False have "length c \<noteq> 1" by simp
    moreover have "length c \<noteq> 0" using assms(1) by simp
    ultimately have l: "2 \<le> length c" by arith
    then have "isCluster (representative tf (hd c) c)" by (simp add: isCluster_representative)
    with e l show ?thesis by simp
  qed
qed

lemma concat_emits_length:
  assumes "\<forall>c\<in>set cs. c \<noteq> [] \<and> (\<forall>p\<in>set c. \<not> isCluster p)"
  shows "length (concat (map (emits tf z) cs)) \<le> length (concat cs) \<and>
         (length (concat (map (emits tf z) cs)) < length (concat cs)
            \<longleftrightarrow> (\<exists>i\<in>set (concat (map (emits tf z) cs)). isCluster i))"
  using assms
proof (induction cs)
  case Nil
  show ?case by simp
next
  case (Cons c cs)
  from Cons.prems have c: "c \<noteq> []" "\<forall>p\<in>set c. \<not> isCluster p" by simp_all
  note h = emits_length [OF c, of tf z]
  from Cons have ih: "length (concat (map (emits tf z) cs)) \<le> length (concat cs)"
    "length (concat (map (emits tf z) cs)) < length (concat cs)
            \<longleftrightarrow> (\<exists>i\<in>set (concat (map (emits tf z) cs)). isCluster i)" by simp_all
  have "length (concat (map (emits tf z) (c # cs))) \<le> length (concat (c # cs))"
    using h(1) ih(1) by simp
  moreover have "length (concat (map (emits tf z) (c # cs))) < length (concat (c # cs))
     \<longleftrightarrow> (length (emits tf z c) < length c \<or> length (concat (map (emits tf z) cs)) < length (concat cs))"
    using h(1) ih(1) by auto
  moreover have "(\<exists>i\<in>set (concat (map (emits tf z) (c # cs))). isCluster i)
     \<longleftrightarrow> ((\<exists>i\<in>set (emits tf z c). isCluster i) \<or> (\<exists>i\<in>set (concat (map (emits tf z) cs)). isCluster i))"
    by auto
  ultimately show ?case using h(2) ih(2) by simp
qed

lemma mset_concat_map_perm:
  "mset xs = mset ys \<Longrightarrow> mset (concat (map f xs)) = mset (concat (map f ys))"
proof -
  have "mset (concat (map f zs)) = (\<Sum>x\<in>#mset zs. mset (f x))" for zs
    by (induction zs) simp_all
  then show "mset xs = mset ys \<Longrightarrow> ?thesis" by simp
qed

lemma representative_fields:
  "lat (representative tf p c) = mean_of lat c"
  "lng (representative tf p c) = mean_of lng c"
  "reflectivity (representative tf p c) = Some (mean_of (\<lambda>loc. or0 (reflectivity loc)) c)"
  "rainfall_rate (representative tf p c) = Some (mean_of (\<lambda>loc. or0 (rainfall_rate loc)) c)"
  "altitude (representative tf p c) = Some (mean_of (\<lambda>loc. or0 (altitude loc)) c)"
  by (simp_all add: representative_def Let_def)

lemma clusters_replicate:
  "clusters gs (replicate (Suc n) p) = [(cellKey gs p, replicate (Suc n) p)]"
proof (induction n)
  case 0
  show ?case by (simp add: clusters_def)
next
  case (Suc n)
  have "replicate (Suc (Suc n)) p = replicate (Suc n) p @ [p]"
    by (simp add: replicate_append_same)
  then have "clusters gs (replicate (Suc (Suc n)) p) = push (clusters gs (replicate (Suc n) p)) (cellKey gs p) p"
    by (simp only: clusters_snoc)
  also have "\<dots> = [(cellKey gs p, replicate (Suc n) p @ [p])]"
    by (simp only: Suc.IH push.simps refl if_True)
  finally show ?case by (simp add: replicate_append_same)
qed

lemma clusterNearbyMarkers_replicate:
  assumes "4 \<le> n"
  shows "clusterNearbyMarkers tf (replicate n p) z = Inr [representative tf p (replicate n p)]"
proof -
  obtain m where n: "n = Suc m" using assms by (cases n) simp_all
  have "\<not> (length (replicate n p) = 1 \<or> (12 \<le> z \<and> length (replicate n p) \<le> 3))"
    using assms by simp
  then have "emits tf z (replicate n p) = [representative tf (hd (replicate n p)) (replicate n p)]"
    by (rule emits_representative)
  moreover have "hd (replicate n p) = p" by (simp add: n)
  moreover have "clusters (gridSize (replicate n p) z) (replicate n p) =
      [(cellKey (gridSize (replicate n p) z) p, replicate n p)]"
    unfolding n by (rule clusters_replicate)
  ultimately show ?thesis
    by (simp add: clusterNearbyMarkers_emits Object_values_def)
qed

subsection \<open>Arithmetic on finite numbers\<close>

lemma foldl_max_Fin:
  "foldl Math_max2 (Fin a) (map Fin xs) = Fin (Max (insert a (set xs)))"
proof (induction xs arbitrary: a)
  case Nil
  show ?case by simp
next
  case (Cons x xs)
  have "Max (insert (max a x) (set xs)) = Max (insert a (insert x (set xs)))"
    by (cases "set xs = {}") (simp_all add: max.assoc)
  then show ?case by (simp add: Cons.IH)
qed

lemma foldl_min_Fin:
  "foldl Math_min2 (Fin a) (map Fin xs) = Fin (Min (insert a (set xs)))"
proof (induction xs arbitrary: a)
  case Nil
  show ?case by simp
next
  case (Cons x xs)
  have "Min (insert (min a x) (set xs)) = Min (insert a (insert x (set xs)))"
    by (cases "set xs = {}") (simp_all add: min.assoc)
  then show ?case by (simp add: Cons.IH)
qed

lemma Math_max_Fin: "xs \<noteq> [] \<Longrightarrow> Math_max (map Fin xs) = Fin (Max (set xs))"
  by (cases xs) (simp_all add: Math_max_def foldl_max_Fin)

lemma Math_min_Fin: "xs \<noteq> [] \<Longrightarrow> Math_min (map Fin xs) = Fin (Min (set xs))"
  by (cases xs) (simp_all add: Math_min_def foldl_min_Fin)

lemma gridSize_finite:
  assumes "locations \<noteq> []" "map lat locations = map Fin lats" "map lng locations = map Fin lngs"
  shows "gridSize locations zoomLevel = Fin (spec_gridSize lats lngs zoomLevel)"
proof -
  have "lats \<noteq> []" "lngs \<noteq> []" using assms by auto
  then have "latRange locations = Fin (Max (set lats) - Min (set lats))"
    "lngRange locations = Fin (Max (set lngs) - Min (set lngs))"
    by (simp_all add: latRange_def lngRange_def assms Math_max_Fin Math_min_Fin js_sub_def)
  then show ?thesis
    by (simp add: gridSize_def baseGridSize_def zoomFactor_def Math_pow2_def spec_gridSize_def Let_def)
qed

lemma gridSize_floor: "\<not> js_less (gridSize locations zoomLevel) (Fin 0.0005)"
proof -
  have "\<not> js_less (Math_max2 (Fin 0.0005) x) (Fin 0.0005)" for x
    by (cases x) simp_all
  then show ?thesis by (simp add: gridSize_def)
qed

lemma foldl_add_Fin:
  "map field c = map Fin xs \<Longrightarrow>
     foldl (\<lambda>sum loc. js_add sum (field loc)) (Fin a) c = Fin (a + sum_list xs)"
proof (induction c arbitrary: a xs)
  case Nil
  then show ?case by simp
next
  case (Cons p c)
  then obtain x xs' where xs: "xs = x # xs'" "field p = Fin x" "map field c = map Fin xs'"
    by (cases xs) auto
  then show ?case using Cons.IH [OF xs(3)] by (simp add: add.assoc)
qed

lemma mean_of_Fin:
  assumes "c \<noteq> []" "map field c = map Fin xs"
  shows "mean_of field c = Fin (mean xs)"
proof -
  have "length xs = length c" using assms(2) by (metis length_map)
  moreover have "real (length c) \<noteq> 0" using assms(1) by simp
  ultimately show ?thesis
    by (simp add: mean_of_def mean_def foldl_add_Fin [OF assms(2)])
qed

lemma or0_map_option: "or0 (map_option Fin r) = Fin (or_zero r)"
  by (cases r) (simp_all add: or_zero_def)

lemma mean_of_or0:
  assumes "c \<noteq> []" "map field c = map (map_option Fin) rs"
  shows "mean_of (\<lambda>loc. or0 (field loc)) c = Fin (mean (map or_zero rs))"
proof -
  have "map (\<lambda>loc. or0 (field loc)) c = map or0 (map field c)" by simp
  also have "\<dots> = map Fin (map or_zero rs)" by (simp add: assms(2) or0_map_option)
  finally show ?thesis using assms(1) by (rule mean_of_Fin [rotated])
qed

lemma sum_list_or_zero_mset:
  "mset rs = {#Some r1, Some r2, None#} \<Longrightarrow> sum_list (map or_zero rs) = r1 + r2 + 0"
proof -
  assume a: "mset rs = {#Some r1, Some r2, None#}"
  have "sum_list (map or_zero rs) = sum_mset (image_mset or_zero (mset rs))"
    by (metis mset_map sum_mset_sum_list)
  then show ?thesis by (simp add: a or_zero_def)
qed

subsection \<open>The sample inputs\<close>

lemma overview_plain: "\<forall>p\<in>set overview. \<not> isCluster p"
  by (simp add: overview_def point_def isCluster_def)

lemma detail_plain: "\<forall>p\<in>set detail. \<not> isCluster p"
  by (simp add: detail_def point_def isCluster_def)

lemma sampleLocations_plain: "\<forall>p\<in>set sampleLocations. \<not> isCluster p"
  by (simp add: sampleLocations_def isCluster_def)

lemma overview_out:
  "clusterNearbyMarkers plain_toFixed overview 5 =
     Inr [point ''a'' 0 0 (Some 5) (Some 4), overview_marker]"
  by code_simp

lemma overview_clusters:
  "clusters (gridSize overview 5) overview =
     [((Fin 0, Fin 0), [point ''a'' 0 0 (Some 5) (Some 4)]),
      ((Fin 30, Fin 30), [point ''b'' 1 1 (Some 10) (Some 1), point ''c'' 1 1 (Some 20) (Some 2),
                   point ''d'' 1 1 None (Some 3)])]"
  by code_simp

lemma detail_out: "clusterNearbyMarkers plain_toFixed detail 12 = Inr detail"
  by code_simp

lemma detail_clusters:
  "clusters (gridSize detail 12) detail =
     [((Fin 0, Fin 0), [point ''a'' 0 0 None None]),
      ((Fin 800, Fin 800), [point ''b'' 1 1 None None, point ''c'' 1 1 None None])]"
  by code_simp

lemma overview_marker_cluster: "isCluster overview_marker"
  by (simp add: overview_marker_def isCluster_def)

lemma overview_marker_members:
  "members overview_marker =
     [point ''b'' 1 1 (Some 10) (Some 1), point ''c'' 1 1 (Some 20) (Some 2),
      point ''d'' 1 1 None (Some 3)]"
  by (simp add: members_def overview_marker_cluster) (simp add: overview_marker_def)

lemma overview_flags: "map isCluster overview = [False, False, False, False]"
  by (simp add: overview_def point_def isCluster_def)

lemma detail_flags: "map isCluster detail = [False, False, False]"
  by (simp add: detail_def point_def isCluster_def)

lemma sampleLocations_flags:
  "map isCluster sampleLocations = [False, False, False, False, False]"
  by (simp add: sampleLocations_def isCluster_def)

section \<open>The claims\<close>

text \<open>
  Throughout, an input point is a plain point: the renderer's test for a cluster marker,
  \<open>isCluster\<close>, fails on it. The points the data route and the fallback list supply
  carry no \<^verbatim>\<open>clusterSize\<close>. The function never throws: every result is an \<open>Inr\<close>.
\<close>

subsection \<open>C1\<close>

text \<open>
  Claim C1 (conservation). For every list of plain input points and every zoom level,
  the function returns a list, and the points recovered from it, the retained member
  list of each cluster marker together with each individual item, are the input points,
  each exactly once; so the multiset of their ids is the multiset of the input ids.
  The empty list is included.
\<close>

theorem conservation:
  assumes "\<forall>p\<in>set locations. \<not> isCluster p"
  shows "\<exists>out. clusterNearbyMarkers toFixed locations zoomLevel = Inr out \<and>
           mset (concat (map members out)) = mset locations \<and>
           mset (map id_loc (concat (map members out))) = mset (map id_loc locations)"
proof -
  let ?cs = "Object_values (clusters (gridSize locations zoomLevel) locations)"
  let ?out = "concat (map (emits toFixed zoomLevel) ?cs)"
  have "\<forall>c\<in>set ?cs. c \<noteq> [] \<and> (\<forall>p\<in>set c. \<not> isCluster p)"
    using clusters_nonempty clusters_subset assms by blast
  then have "concat (map members ?out) = concat ?cs"
    by (rule concat_emits_members)
  then have m: "mset (concat (map members ?out)) = mset locations"
    by (simp add: Object_values_def clusters_mset)
  have "mset (map id_loc (concat (map members ?out))) = image_mset id_loc (mset (concat (map members ?out)))"
    by simp
  with m have "mset (map id_loc (concat (map members ?out))) = mset (map id_loc locations)"
    by simp
  with m show ?thesis by (simp add: clusterNearbyMarkers_emits)
qed

theorem conservation_witness:
  "map isCluster overview = [False, False, False, False] \<and>
   clusterNearbyMarkers plain_toFixed overview 5 =
     Inr [point ''a'' 0 0 (Some 5) (Some 4), overview_marker] \<and>
   mset (map id_loc (concat (map members [point ''a'' 0 0 (Some 5) (Some 4), overview_marker])))
     = {#''a'', ''b'', ''c'', ''d''#}"
proof -
  have ids: "mset (map id_loc overview) = {#''a'', ''b'', ''c'', ''d''#}"
    by (simp add: overview_def point_def)
  from conservation [OF overview_plain, of plain_toFixed 5] obtain out where
    "clusterNearbyMarkers plain_toFixed overview 5 = Inr out"
    "mset (map id_loc (concat (map members out))) = mset (map id_loc overview)" by blast
  with overview_out ids overview_flags show ?thesis by simp
qed

subsection \<open>C2\<close>

text \<open>
  Claim C2 (grid cell size). For a non-empty list of points with finite coordinates and
  any integer zoom level, the cell size the code computes is the one the specification
  words, \<open>max 0.0005 (baseGridSize / zoomFactor)\<close>, which is at least 0.0005. For any
  input at all, finite or not, empty or not, the computed cell size is never below
  0.0005 in the sense of the JavaScript comparison.
\<close>

theorem grid_cell_size:
  "(locations \<noteq> [] \<and> map lat locations = map Fin lats \<and> map lng locations = map Fin lngs \<longrightarrow>
      gridSize locations zoomLevel = Fin (spec_gridSize lats lngs zoomLevel) \<and>
      0.0005 \<le> spec_gridSize lats lngs zoomLevel) \<and>
   \<not> js_less (gridSize locations zoomLevel) (Fin 0.0005)"
proof -
  have "0.0005 \<le> spec_gridSize lats lngs zoomLevel"
    by (simp add: spec_gridSize_def Let_def)
  then show ?thesis using gridSize_finite gridSize_floor by blast
qed

theorem grid_cell_size_witness:
  "overview \<noteq> [] \<and> map lat overview = map Fin [0, 1, 1, 1] \<and>
   map lng overview = map Fin [0, 1, 1, 1] \<and>
   gridSize overview 5 = Fin (1 / 30) \<and> spec_gridSize [0, 1, 1, 1] [0, 1, 1, 1] 5 = 1 / 30 \<and>
   gridSize overview 12 = Fin (1 / 800) \<and>
   gridSize [point ''a'' 1 1 None None] 20 = Fin 0.0005"
proof -
  have a: "overview \<noteq> []" "map lat overview = map Fin [0, 1, 1, 1]"
    "map lng overview = map Fin [0, 1, 1, 1]"
    by (simp_all add: overview_def point_def)
  have s: "spec_gridSize [0, 1, 1, 1] [0, 1, 1, 1] 5 = 1 / 30"
    "spec_gridSize [0, 1, 1, 1] [0, 1, 1, 1] 12 = 1 / 800"
    "spec_gridSize [1] [1] 20 = 0.0005"
    by (simp_all add: spec_gridSize_def)
  have b: "[point ''a'' 1 1 None None] \<noteq> []" "map lat [point ''a'' 1 1 None None] = map Fin [1]"
    "map lng [point ''a'' 1 1 None None] = map Fin [1]"
    by (simp_all add: point_def)
  from grid_cell_size [of overview "[0, 1, 1, 1]" "[0, 1, 1, 1]" 5]
    grid_cell_size [of overview "[0, 1, 1, 1]" "[0, 1, 1, 1]" 12]
    grid_cell_size [of "[point ''a'' 1 1 None None]" "[1]" "[1]" 20] a b s
  show ?thesis by simp
qed

subsection \<open>C3\<close>

text \<open>
  Claim C3 (zoom override). At zoom 12 or more, a cell holding exactly two or three plain
  points contributes exactly these points as individual items: the individual items of
  the result that lie in this cell are the cell's points, in order, and no cluster marker
  of the result has a member in this cell.
\<close>

theorem zoom_override:
  assumes "\<forall>p\<in>set locations. \<not> isCluster p"
    and "12 \<le> zoomLevel"
    and "(k, ps) \<in> set (clusters (gridSize locations zoomLevel) locations)"
    and "length ps = 2 \<or> length ps = 3"
  shows "\<exists>out. clusterNearbyMarkers toFixed locations zoomLevel = Inr out \<and>
           filter (\<lambda>i. \<not> isCluster i \<and> cellKey (gridSize locations zoomLevel) i = k) out = ps \<and>
           (\<forall>c\<in>set out. isCluster c \<longrightarrow>
              (\<forall>p\<in>set (members c). cellKey (gridSize locations zoomLevel) p \<noteq> k))"
proof -
  let ?gs = "gridSize locations zoomLevel"
  let ?out = "concat (map (emits toFixed zoomLevel) (Object_values (clusters ?gs locations)))"
  have small: "length ps = 1 \<or> (12 \<le> zoomLevel \<and> length ps \<le> 3)"
    using assms(2,4) by auto
  then have "emits toFixed zoomLevel ps = ps" by (rule emits_points)
  from individuals_of_cell [OF assms(1,3) this]
  have a: "filter (\<lambda>i. \<not> isCluster i \<and> cellKey ?gs i = k) ?out = ps" .
  have b: "\<forall>c\<in>set ?out. isCluster c \<longrightarrow> (\<forall>p\<in>set (members c). cellKey ?gs p \<noteq> k)"
    using no_cluster_of_cell [OF assms(1,3) small, where tf = toFixed] by simp
  from clusterNearbyMarkers_emits [of toFixed locations zoomLevel] a b show ?thesis
    by (intro exI [of _ ?out] conjI)
qed

theorem zoom_override_witness:
  "map isCluster detail = [False, False, False] \<and> (12::int) \<le> 12 \<and>
   ((Fin 800, Fin 800), [point ''b'' 1 1 None None, point ''c'' 1 1 None None])
      \<in> set (clusters (gridSize detail 12) detail) \<and>
   length [point ''b'' 1 1 None None, point ''c'' 1 1 None None] = 2 \<and>
   clusterNearbyMarkers plain_toFixed detail 12 = Inr detail \<and>
   filter (\<lambda>i. \<not> isCluster i \<and> cellKey (gridSize detail 12) i = (Fin 800, Fin 800)) detail
     = [point ''b'' 1 1 None None, point ''c'' 1 1 None None] \<and>
   filter isCluster detail = []"
proof -
  let ?ps = "[point ''b'' 1 1 None None, point ''c'' 1 1 None None]"
  have e: "((Fin 800, Fin 800), ?ps) \<in> set (clusters (gridSize detail 12) detail)"
    by (simp add: detail_clusters)
  have z: "(12::int) \<le> 12" by simp
  have l: "length ?ps = 2 \<or> length ?ps = 3" by simp
  from zoom_override [OF detail_plain z e l, of plain_toFixed] detail_out detail_flags e
  show ?thesis by (simp add: filter_empty_conv detail_plain)
qed

subsection \<open>C4\<close>

text \<open>
  Claim C4 (threshold and member count). At every zoom level, a cell holding exactly one
  point contributes this point as its only individual item and no cluster marker has a
  member in this cell; and every cluster marker of the result retains the array of some
  cell, has \<^verbatim>\<open>clusterSize\<close> equal to the length of that array, and that length is at
  least 2.
\<close>

theorem threshold_member_count:
  assumes "\<forall>p\<in>set locations. \<not> isCluster p"
  shows "\<exists>out. clusterNearbyMarkers toFixed locations zoomLevel = Inr out \<and>
           (\<forall>k p. (k, [p]) \<in> set (clusters (gridSize locations zoomLevel) locations) \<longrightarrow>
              filter (\<lambda>i. \<not> isCluster i \<and> cellKey (gridSize locations zoomLevel) i = k) out = [p] \<and>
              (\<forall>c\<in>set out. isCluster c \<longrightarrow>
                 (\<forall>q\<in>set (members c). cellKey (gridSize locations zoomLevel) q \<noteq> k))) \<and>
           (\<forall>c\<in>set out. isCluster c \<longrightarrow>
              (\<exists>k ps. (k, ps) \<in> set (clusters (gridSize locations zoomLevel) locations) \<and>
                 clusterPoints c = Some ps \<and> clusterSize c = Some (length ps) \<and> 2 \<le> length ps))"
proof -
  let ?gs = "gridSize locations zoomLevel"
  let ?out = "concat (map (emits toFixed zoomLevel) (Object_values (clusters ?gs locations)))"
  have one: "filter (\<lambda>i. \<not> isCluster i \<and> cellKey ?gs i = k) ?out = [p] \<and>
              (\<forall>c\<in>set ?out. isCluster c \<longrightarrow> (\<forall>q\<in>set (members c). cellKey ?gs q \<noteq> k))"
    if e: "(k, [p]) \<in> set (clusters ?gs locations)" for k p
  proof -
    have small: "length [p] = 1 \<or> (12 \<le> zoomLevel \<and> length [p] \<le> 3)" by simp
    then have "emits toFixed zoomLevel [p] = [p]" by (rule emits_points)
    from individuals_of_cell [OF assms e this]
    have a: "filter (\<lambda>i. \<not> isCluster i \<and> cellKey ?gs i = k) ?out = [p]" .
    have b: "\<forall>c\<in>set ?out. isCluster c \<longrightarrow> (\<forall>q\<in>set (members c). cellKey ?gs q \<noteq> k)"
      using no_cluster_of_cell [OF assms e small, where tf = toFixed] by simp
    from a b show ?thesis by (rule conjI)
  qed
  have two: "\<exists>k ps. (k, ps) \<in> set (clusters ?gs locations) \<and>
                 clusterPoints c = Some ps \<and> clusterSize c = Some (length ps) \<and> 2 \<le> length ps"
    if c: "c \<in> set ?out" "isCluster c" for c
  proof -
    from cluster_item_entry [OF assms c] obtain k ps where
      e: "(k, ps) \<in> set (clusters ?gs locations)" and r: "c = representative toFixed (hd ps) ps"
      and l: "2 \<le> length ps" by blast
    have "clusterPoints c = Some ps \<and> clusterSize c = Some (length ps)"
      by (simp add: r representative_def Let_def)
    with e l show ?thesis by blast
  qed
  from one have one': "\<forall>k p. (k, [p]) \<in> set (clusters ?gs locations) \<longrightarrow>
      filter (\<lambda>i. \<not> isCluster i \<and> cellKey ?gs i = k) ?out = [p] \<and>
      (\<forall>c\<in>set ?out. isCluster c \<longrightarrow> (\<forall>q\<in>set (members c). cellKey ?gs q \<noteq> k))"
    by (intro allI impI)
  from two have two': "\<forall>c\<in>set ?out. isCluster c \<longrightarrow>
      (\<exists>k ps. (k, ps) \<in> set (clusters ?gs locations) \<and>
         clusterPoints c = Some ps \<and> clusterSize c = Some (length ps) \<and> 2 \<le> length ps)"
    by (intro ballI impI)
  from clusterNearbyMarkers_emits [of toFixed locations zoomLevel] one' two' show ?thesis
    by (intro exI [of _ ?out] conjI)
qed

theorem threshold_member_count_witness:
  "map isCluster overview = [False, False, False, False] \<and>
   ((Fin 0, Fin 0), [point ''a'' 0 0 (Some 5) (Some 4)])
      \<in> set (clusters (gridSize overview 5) overview) \<and>
   clusterNearbyMarkers plain_toFixed overview 5 =
     Inr [point ''a'' 0 0 (Some 5) (Some 4), overview_marker] \<and>
   filter (\<lambda>i. \<not> isCluster i \<and> cellKey (gridSize overview 5) i = (Fin 0, Fin 0))
     [point ''a'' 0 0 (Some 5) (Some 4), overview_marker] = [point ''a'' 0 0 (Some 5) (Some 4)] \<and>
   isCluster overview_marker \<and>
   (\<exists>k ps. (k, ps) \<in> set (clusters (gridSize overview 5) overview) \<and>
      clusterPoints overview_marker = Some ps \<and> clusterSize overview_marker = Some (length ps) \<and>
      2 \<le> length ps) \<and>
   clusterSize overview_marker = Some 3"
proof -
  let ?a = "point ''a'' 0 0 (Some 5) (Some 4)"
  let ?cs = "clusters (gridSize overview 5) overview"
  have e: "((Fin 0, Fin 0), [?a]) \<in> set ?cs" by (simp add: overview_clusters)
  from threshold_member_count [OF overview_plain, of plain_toFixed 5] obtain out where
    o: "clusterNearbyMarkers plain_toFixed overview 5 = Inr out"
    and one: "\<forall>k p. (k, [p]) \<in> set ?cs \<longrightarrow>
       filter (\<lambda>i. \<not> isCluster i \<and> cellKey (gridSize overview 5) i = k) out = [p] \<and>
       (\<forall>c\<in>set out. isCluster c \<longrightarrow>
          (\<forall>q\<in>set (members c). cellKey (gridSize overview 5) q \<noteq> k))"
    and two: "\<forall>c\<in>set out. isCluster c \<longrightarrow>
       (\<exists>k ps. (k, ps) \<in> set ?cs \<and> clusterPoints c = Some ps \<and>
          clusterSize c = Some (length ps) \<and> 2 \<le> length ps)"
    by blast
  have out: "out = [?a, overview_marker]" using o overview_out by simp
  have f: "filter (\<lambda>i. \<not> isCluster i \<and> cellKey (gridSize overview 5) i = (Fin 0, Fin 0))
     [?a, overview_marker] = [?a]"
    using one e unfolding out by blast
  have g: "\<exists>k ps. (k, ps) \<in> set ?cs \<and> clusterPoints overview_marker = Some ps \<and>
      clusterSize overview_marker = Some (length ps) \<and> 2 \<le> length ps"
    using two overview_marker_cluster unfolding out by simp
  have s: "clusterSize overview_marker = Some 3" by (simp add: overview_marker_def)
  from overview_flags e overview_out f overview_marker_cluster g s show ?thesis
    by (intro conjI)
qed

subsection \<open>C5\<close>

text \<open>
  Claim C5 (cluster statistics). For every cluster marker of the result: if its members
  have finite coordinates, its \<^verbatim>\<open>lat\<close> and \<^verbatim>\<open>lng\<close> are the means of theirs; if each
  member's reflectivity is finite or missing, its reflectivity is the mean of the
  members' values with 0 for a missing one, and likewise for the rainfall rate and the
  altitude. In particular, below zoom 12, a cell of three points with rainfall rates 1, 2
  and 3 and reflectivities \<open>r1\<close>, \<open>r2\<close> and one missing, in any order, is rendered as a
  cluster marker with rainfall rate 2 and reflectivity \<open>(r1 + r2 + 0) / 3\<close>.
\<close>

theorem cluster_statistics:
  assumes "\<forall>p\<in>set locations. \<not> isCluster p"
  shows "\<exists>out. clusterNearbyMarkers toFixed locations zoomLevel = Inr out \<and>
     (\<forall>c\<in>set out. isCluster c \<longrightarrow>
        (\<forall>xs. map lat (members c) = map Fin xs \<longrightarrow> lat c = Fin (mean xs)) \<and>
        (\<forall>xs. map lng (members c) = map Fin xs \<longrightarrow> lng c = Fin (mean xs)) \<and>
        (\<forall>rs. map reflectivity (members c) = map (map_option Fin) rs \<longrightarrow>
           reflectivity c = Some (Fin (mean (map or_zero rs)))) \<and>
        (\<forall>rs. map rainfall_rate (members c) = map (map_option Fin) rs \<longrightarrow>
           rainfall_rate c = Some (Fin (mean (map or_zero rs)))) \<and>
        (\<forall>rs. map altitude (members c) = map (map_option Fin) rs \<longrightarrow>
           altitude c = Some (Fin (mean (map or_zero rs))))) \<and>
     (\<forall>k ps rs r1 r2.
        zoomLevel < 12 \<and> (k, ps) \<in> set (clusters (gridSize locations zoomLevel) locations) \<and>
        map rainfall_rate ps = [Some (Fin 1), Some (Fin 2), Some (Fin 3)] \<and>
        map reflectivity ps = map (map_option Fin) rs \<and> mset rs = {#Some r1, Some r2, None#} \<longrightarrow>
        (\<exists>c\<in>set out. isCluster c \<and> members c = ps \<and> rainfall_rate c = Some (Fin 2) \<and>
           reflectivity c = Some (Fin ((r1 + r2 + 0) / 3))))"
proof -
  let ?gs = "gridSize locations zoomLevel"
  let ?out = "concat (map (emits toFixed zoomLevel) (Object_values (clusters ?gs locations)))"
  have general: "(\<forall>xs. map lat (members c) = map Fin xs \<longrightarrow> lat c = Fin (mean xs)) \<and>
        (\<forall>xs. map lng (members c) = map Fin xs \<longrightarrow> lng c = Fin (mean xs)) \<and>
        (\<forall>rs. map reflectivity (members c) = map (map_option Fin) rs \<longrightarrow>
           reflectivity c = Some (Fin (mean (map or_zero rs)))) \<and>
        (\<forall>rs. map rainfall_rate (members c) = map (map_option Fin) rs \<longrightarrow>
           rainfall_rate c = Some (Fin (mean (map or_zero rs)))) \<and>
        (\<forall>rs. map altitude (members c) = map (map_option Fin) rs \<longrightarrow>
           altitude c = Some (Fin (mean (map or_zero rs))))"
    if c: "c \<in> set ?out" "isCluster c" for c
  proof -
    from cluster_item_entry [OF assms c] obtain k ps where
      r: "c = representative toFixed (hd ps) ps" and l: "2 \<le> length ps" by blast
    have m: "members c = ps" using r l by (simp add: members_representative)
    have ne: "ps \<noteq> []" using l by auto
    show ?thesis
      unfolding m unfolding r representative_fields
      using mean_of_Fin [OF ne] mean_of_or0 [OF ne] by simp
  qed
  have scenario: "\<exists>c\<in>set ?out. isCluster c \<and> members c = ps \<and> rainfall_rate c = Some (Fin 2) \<and>
           reflectivity c = Some (Fin ((r1 + r2 + 0) / 3))"
    if h: "zoomLevel < 12" "(k, ps) \<in> set (clusters ?gs locations)"
      "map rainfall_rate ps = [Some (Fin 1), Some (Fin 2), Some (Fin 3)]"
      "map reflectivity ps = map (map_option Fin) rs" "mset rs = {#Some r1, Some r2, None#}"
    for k ps rs r1 r2
  proof -
    let ?c = "representative toFixed (hd ps) ps"
    have len: "length ps = 3" using h(3) by (metis length_map length_Cons list.size(3) numeral_3_eq_3)
    then have ne: "ps \<noteq> []" by auto
    have "\<not> (length ps = 1 \<or> (12 \<le> zoomLevel \<and> length ps \<le> 3))" using len h(1) by simp
    then have "emits toFixed zoomLevel ps = [?c]" by (rule emits_representative)
    then have inout: "?c \<in> set ?out" using entry_out_items [OF h(2), of toFixed zoomLevel] by simp
    have ic: "isCluster ?c" using len by (simp add: isCluster_representative)
    have m: "members ?c = ps" using len by (simp add: members_representative)
    have "map rainfall_rate ps = map (map_option Fin) [Some 1, Some 2, Some 3]"
      using h(3) by simp
    from mean_of_or0 [OF ne this]
    have rain: "rainfall_rate ?c = Some (Fin 2)"
      by (simp add: representative_fields mean_def or_zero_def)
    have "length rs = 3" using h(5) by (metis size_mset size_add_mset size_empty numeral_3_eq_3)
    then have "mean (map or_zero rs) = (r1 + r2 + 0) / 3"
      by (simp add: mean_def sum_list_or_zero_mset [OF h(5)])
    with mean_of_or0 [OF ne h(4)]
    have refl: "reflectivity ?c = Some (Fin ((r1 + r2 + 0) / 3))"
      by (simp add: representative_fields)
    from inout ic m rain refl show ?thesis by blast
  qed
  from general have g': "\<forall>c\<in>set ?out. isCluster c \<longrightarrow>
        (\<forall>xs. map lat (members c) = map Fin xs \<longrightarrow> lat c = Fin (mean xs)) \<and>
        (\<forall>xs. map lng (members c) = map Fin xs \<longrightarrow> lng c = Fin (mean xs)) \<and>
        (\<forall>rs. map reflectivity (members c) = map (map_option Fin) rs \<longrightarrow>
           reflectivity c = Some (Fin (mean (map or_zero rs)))) \<and>
        (\<forall>rs. map rainfall_rate (members c) = map (map_option Fin) rs \<longrightarrow>
           rainfall_rate c = Some (Fin (mean (map or_zero rs)))) \<and>
        (\<forall>rs. map altitude (members c) = map (map_option Fin) rs \<longrightarrow>
           altitude c = Some (Fin (mean (map or_zero rs))))"
    by (intro ballI impI)
  from scenario have s': "\<forall>k ps rs r1 r2.
        zoomLevel < 12 \<and> (k, ps) \<in> set (clusters ?gs locations) \<and>
        map rainfall_rate ps = [Some (Fin 1), Some (Fin 2), Some (Fin 3)] \<and>
        map reflectivity ps = map (map_option Fin) rs \<and> mset rs = {#Some r1, Some r2, None#} \<longrightarrow>
        (\<exists>c\<in>set ?out. isCluster c \<and> members c = ps \<and> rainfall_rate c = Some (Fin 2) \<and>
           reflectivity c = Some (Fin ((r1 + r2 + 0) / 3)))"
    by (intro allI impI) (elim conjE)
  from clusterNearbyMarkers_emits [of toFixed locations zoomLevel] g' s' show ?thesis
    by (intro exI [of _ ?out] conjI)
qed

theorem cluster_statistics_witness:
  "map isCluster overview = [False, False, False, False] \<and> (5::int) < 12 \<and>
   ((Fin 30, Fin 30), members overview_marker) \<in> set (clusters (gridSize overview 5) overview) \<and>
   map rainfall_rate (members overview_marker) = [Some (Fin 1), Some (Fin 2), Some (Fin 3)] \<and>
   map reflectivity (members overview_marker) = map (map_option Fin) [Some 10, Some 20, None] \<and>
   map lat (members overview_marker) = map Fin [1, 1, 1] \<and>
   clusterNearbyMarkers plain_toFixed overview 5 =
     Inr [point ''a'' 0 0 (Some 5) (Some 4), overview_marker] \<and>
   isCluster overview_marker \<and>
   lat overview_marker = Fin (mean [1, 1, 1]) \<and>
   rainfall_rate overview_marker = Some (Fin 2) \<and>
   reflectivity overview_marker = Some (Fin ((10 + 20 + 0) / 3))"
proof -
  let ?a = "point ''a'' 0 0 (Some 5) (Some 4)"
  let ?cs = "clusters (gridSize overview 5) overview"
  let ?ps = "members overview_marker"
  have z: "(5::int) < 12" by simp
  have e: "((Fin 30, Fin 30), ?ps) \<in> set ?cs"
    by (simp add: overview_clusters overview_marker_members)
  have rain: "map rainfall_rate ?ps = [Some (Fin 1), Some (Fin 2), Some (Fin 3)]"
    by (simp add: overview_marker_members point_def)
  have dbz: "map reflectivity ?ps = map (map_option Fin) [Some 10, Some 20, None]"
    by (simp add: overview_marker_members point_def)
  have ms: "mset [Some 10, Some 20, None] = {#Some (10::real), Some 20, None#}" by simp
  have lats: "map lat ?ps = map Fin [1, 1, 1]"
    by (simp add: overview_marker_members point_def)
  from cluster_statistics [OF overview_plain, of plain_toFixed 5] obtain out where
    o: "clusterNearbyMarkers plain_toFixed overview 5 = Inr out"
    and general: "\<forall>c\<in>set out. isCluster c \<longrightarrow>
        (\<forall>xs. map lat (members c) = map Fin xs \<longrightarrow> lat c = Fin (mean xs)) \<and>
        (\<forall>xs. map lng (members c) = map Fin xs \<longrightarrow> lng c = Fin (mean xs)) \<and>
        (\<forall>rs. map reflectivity (members c) = map (map_option Fin) rs \<longrightarrow>
           reflectivity c = Some (Fin (mean (map or_zero rs)))) \<and>
        (\<forall>rs. map rainfall_rate (members c) = map (map_option Fin) rs \<longrightarrow>
           rainfall_rate c = Some (Fin (mean (map or_zero rs)))) \<and>
        (\<forall>rs. map altitude (members c) = map (map_option Fin) rs \<longrightarrow>
           altitude c = Some (Fin (mean (map or_zero rs))))"
    and scenario: "\<forall>k ps rs r1 r2.
        (5::int) < 12 \<and> (k, ps) \<in> set ?cs \<and>
        map rainfall_rate ps = [Some (Fin 1), Some (Fin 2), Some (Fin 3)] \<and>
        map reflectivity ps = map (map_option Fin) rs \<and> mset rs = {#Some r1, Some r2, None#} \<longrightarrow>
        (\<exists>c\<in>set out. isCluster c \<and> members c = ps \<and> rainfall_rate c = Some (Fin 2) \<and>
           reflectivity c = Some (Fin ((r1 + r2 + 0) / 3)))"
    by blast
  have out: "out = [?a, overview_marker]" using o overview_out by simp
  have mean_lat: "lat overview_marker = Fin (mean [1, 1, 1])"
    using general overview_marker_cluster lats unfolding out by simp
  have pre: "(5::int) < 12 \<and> ((Fin 30, Fin 30), ?ps) \<in> set ?cs \<and>
        map rainfall_rate ?ps = [Some (Fin 1), Some (Fin 2), Some (Fin 3)] \<and>
        map reflectivity ?ps = map (map_option Fin) [Some 10, Some 20, None] \<and>
        mset [Some 10, Some 20, None] = {#Some (10::real), Some 20, None#}"
    using z e rain dbz ms by (intro conjI)
  have "\<exists>c\<in>set out. isCluster c \<and> members c = ?ps \<and> rainfall_rate c = Some (Fin 2) \<and>
           reflectivity c = Some (Fin ((10 + 20 + 0) / 3))"
    by (rule scenario [THEN spec [where x = "(Fin 30, Fin 30)"],
        THEN spec [where x = "members overview_marker"],
        THEN spec [where x = "[Some 10, Some 20, None]"],
        THEN spec [where x = 10], THEN spec [where x = 20], THEN mp, OF pre])
  then have "rainfall_rate overview_marker = Some (Fin 2) \<and>
       reflectivity overview_marker = Some (Fin ((10 + 20 + 0) / 3))"
    using overview_plain unfolding out by (auto simp: overview_def)
  with mean_lat show ?thesis
    using overview_flags z e rain dbz lats overview_out overview_marker_cluster by (intro conjI) simp_all
qed

subsection \<open>C6\<close>

text \<open>
  Claim C6 (render policy). With at most 100 candidate points the rendered list is the
  input list itself, so that plain points are all rendered as individual items and none
  as a cluster marker; with more than 100 the rendered list is the result of
  \<^verbatim>\<open>clusterNearbyMarkers\<close> on the input and the current zoom.
\<close>

theorem render_policy:
  "(length filteredLocations \<le> 100 \<longrightarrow>
      locationsToRender toFixed filteredLocations mapZoom = Inr filteredLocations \<and>
      ((\<forall>p\<in>set filteredLocations. \<not> isCluster p) \<longrightarrow>
         (\<exists>out. locationsToRender toFixed filteredLocations mapZoom = Inr out \<and>
            length (filter (\<lambda>i. \<not> isCluster i) out) = length filteredLocations \<and>
            filter isCluster out = []))) \<and>
   (100 < length filteredLocations \<longrightarrow>
      locationsToRender toFixed filteredLocations mapZoom =
        clusterNearbyMarkers toFixed filteredLocations mapZoom)"
  by (simp add: locationsToRender_def shouldUseCluster_def filter_id_conv filter_empty_conv)

theorem render_policy_witness:
  "length sampleLocations \<le> 100 \<and> length sampleLocations = 5 \<and>
   map isCluster sampleLocations = [False, False, False, False, False] \<and>
   locationsToRender plain_toFixed sampleLocations 8 = Inr sampleLocations \<and>
   length (filter (\<lambda>i. \<not> isCluster i) sampleLocations) = 5 \<and>
   filter isCluster sampleLocations = [] \<and>
   100 < length (replicate 101 (point ''a'' 1 1 None None)) \<and>
   locationsToRender plain_toFixed (replicate 101 (point ''a'' 1 1 None None)) 8 =
     clusterNearbyMarkers plain_toFixed (replicate 101 (point ''a'' 1 1 None None)) 8 \<and>
   locationsToRender plain_toFixed (replicate 101 (point ''a'' 1 1 None None)) 8 =
     Inr [representative plain_toFixed (point ''a'' 1 1 None None)
            (replicate 101 (point ''a'' 1 1 None None))]"
proof -
  have l: "length sampleLocations = 5" by (simp add: sampleLocations_def)
  have m: "100 < length (replicate 101 (point ''a'' 1 1 None None))" by simp
  have c: "clusterNearbyMarkers plain_toFixed (replicate 101 (point ''a'' 1 1 None None)) 8 =
     Inr [representative plain_toFixed (point ''a'' 1 1 None None)
            (replicate 101 (point ''a'' 1 1 None None))]"
    by (rule clusterNearbyMarkers_replicate) simp
  from render_policy [of sampleLocations plain_toFixed 8]
    render_policy [of "replicate 101 (point ''a'' 1 1 None None)" plain_toFixed 8]
    l m c sampleLocations_plain sampleLocations_flags
  show ?thesis by simp
qed

subsection \<open>C7\<close>

text \<open>
  Claim C7 (empty input). On the empty list, at every zoom level, the object of cells is
  empty, mapping and flattening it gives the empty list, and the function returns the
  empty list, not an error.
\<close>

theorem empty_input:
  "clusters (gridSize [] zoomLevel) [] = [] \<and>
   clusteredPoints toFixed zoomLevel [] = Inr [] \<and>
   clusterNearbyMarkers toFixed [] zoomLevel = Inr []"
  by (simp add: clusterNearbyMarkers_def clusteredPoints_def clusters_def Object_values_def)

theorem empty_input_witness:
  "clusters (gridSize [] 5) [] = [] \<and> clusteredPoints plain_toFixed 5 [] = Inr [] \<and>
   clusterNearbyMarkers plain_toFixed [] 5 = Inr [] \<and> gridSize [] 5 = Fin 0.0005"
proof -
  have "gridSize [] 5 = Fin 0.0005"
    by (simp add: gridSize_def baseGridSize_def latRange_def lngRange_def zoomFactor_def
        Math_max_def Math_min_def js_sub_def Math_pow2_def)
  with empty_input [of 5 plain_toFixed] show ?thesis by simp
qed

subsection \<open>C8\<close>

text \<open>
  Claim C8 (determinism). The result is a function of the points and the zoom level
  alone. Moreover it does not depend, as a multiset and hence as a set, on the order in
  which the cells are visited: mapping and flattening any rearrangement of the object of
  cells returns the same items, each cluster marker with the same members, as the call
  itself.
\<close>

theorem determinism:
  assumes "mset obj = mset (clusters (gridSize locations zoomLevel) locations)"
  shows "\<exists>out out'. clusterNearbyMarkers toFixed locations zoomLevel = Inr out \<and>
           clusteredPoints toFixed zoomLevel obj = Inr out' \<and>
           mset out' = mset out \<and> set out' = set out"
proof -
  let ?cs = "clusters (gridSize locations zoomLevel) locations"
  let ?out = "concat (map (emits toFixed zoomLevel) (Object_values ?cs))"
  let ?out' = "concat (map (emits toFixed zoomLevel) (Object_values obj))"
  have m: "mset (Object_values obj) = mset (Object_values ?cs)"
  proof -
    have "image_mset snd (mset obj) = image_mset snd (mset ?cs)" using assms by simp
    then show ?thesis unfolding Object_values_def mset_map .
  qed
  then have "set (Object_values obj) = set (Object_values ?cs)" by (rule mset_eq_setD)
  then have "\<forall>c\<in>set (Object_values obj). c \<noteq> []" using clusters_nonempty by blast
  then have a: "clusteredPoints toFixed zoomLevel obj = Inr ?out'" by (rule clusteredPoints_emits)
  have b: "mset ?out' = mset ?out" using m by (rule mset_concat_map_perm)
  then have c: "set ?out' = set ?out" by (rule mset_eq_setD)
  from clusterNearbyMarkers_emits [of toFixed locations zoomLevel] a b c show ?thesis
    by (intro exI [of _ ?out] exI [of _ ?out'] conjI)
qed

theorem determinism_witness:
  "mset (rev (clusters (gridSize overview 5) overview))
     = mset (clusters (gridSize overview 5) overview) \<and>
   clusterNearbyMarkers plain_toFixed overview 5 =
     Inr [point ''a'' 0 0 (Some 5) (Some 4), overview_marker] \<and>
   clusteredPoints plain_toFixed 5 (rev (clusters (gridSize overview 5) overview)) =
     Inr [overview_marker, point ''a'' 0 0 (Some 5) (Some 4)] \<and>
   (\<exists>out out'. clusterNearbyMarkers plain_toFixed overview 5 = Inr out \<and>
      clusteredPoints plain_toFixed 5 (rev (clusters (gridSize overview 5) overview)) = Inr out' \<and>
      mset out' = mset out \<and> set out' = set out)"
proof -
  have p: "mset (rev (clusters (gridSize overview 5) overview))
     = mset (clusters (gridSize overview 5) overview)" by simp
  have r: "clusteredPoints plain_toFixed 5 (rev (clusters (gridSize overview 5) overview)) =
     Inr [overview_marker, point ''a'' 0 0 (Some 5) (Some 4)]"
    by code_simp
  from determinism [OF p, of plain_toFixed] p overview_out r show ?thesis by (intro conjI)
qed

subsection \<open>C9\<close>

text \<open>
  Claim C9 (member list preservation). The array a cluster marker of the result retains
  is the array of one cell of the object of cells, which is exactly the list of the input
  points that fall into that cell, in input order, each as it was given.
\<close>

theorem member_list_preserved:
  assumes "\<forall>p\<in>set locations. \<not> isCluster p"
  shows "\<exists>out. clusterNearbyMarkers toFixed locations zoomLevel = Inr out \<and>
           (\<forall>c\<in>set out. isCluster c \<longrightarrow>
              (\<exists>k. (k, members c) \<in> set (clusters (gridSize locations zoomLevel) locations) \<and>
                 clusterPoints c =
                   Some (filter (\<lambda>l. cellKey (gridSize locations zoomLevel) l = k) locations)))"
proof -
  let ?gs = "gridSize locations zoomLevel"
  let ?out = "concat (map (emits toFixed zoomLevel) (Object_values (clusters ?gs locations)))"
  have "\<exists>k. (k, members c) \<in> set (clusters ?gs locations) \<and>
            clusterPoints c = Some (filter (\<lambda>l. cellKey ?gs l = k) locations)"
    if c: "c \<in> set ?out" "isCluster c" for c
  proof -
    from cluster_item_entry [OF assms c] obtain k ps where
      e: "(k, ps) \<in> set (clusters ?gs locations)" and r: "c = representative toFixed (hd ps) ps"
      and l: "2 \<le> length ps" by blast
    have "clusterPoints c = Some ps" by (simp add: r representative_def Let_def)
    moreover have "members c = ps" using r l by (simp add: members_representative)
    moreover have "ps = filter (\<lambda>l. cellKey ?gs l = k) locations"
      using clusters_entry_props(4) [OF e] .
    ultimately have "(k, members c) \<in> set (clusters ?gs locations) \<and>
        clusterPoints c = Some (filter (\<lambda>l. cellKey ?gs l = k) locations)"
      using e by simp
    then show ?thesis by (rule exI)
  qed
  then have "\<forall>c\<in>set ?out. isCluster c \<longrightarrow>
      (\<exists>k. (k, members c) \<in> set (clusters ?gs locations) \<and>
            clusterPoints c = Some (filter (\<lambda>l. cellKey ?gs l = k) locations))"
    by simp
  with clusterNearbyMarkers_emits [of toFixed locations zoomLevel] show ?thesis
    by (intro exI [of _ ?out] conjI)
qed

theorem member_list_preserved_witness:
  "map isCluster overview = [False, False, False, False] \<and>
   clusterNearbyMarkers plain_toFixed overview 5 =
     Inr [point ''a'' 0 0 (Some 5) (Some 4), overview_marker] \<and>
   isCluster overview_marker \<and>
   (\<exists>k. (k, members overview_marker) \<in> set (clusters (gridSize overview 5) overview) \<and>
      clusterPoints overview_marker =
        Some (filter (\<lambda>l. cellKey (gridSize overview 5) l = k) overview)) \<and>
   clusterPoints overview_marker =
     Some [point ''b'' 1 1 (Some 10) (Some 1), point ''c'' 1 1 (Some 20) (Some 2),
           point ''d'' 1 1 None (Some 3)]"
proof -
  from member_list_preserved [OF overview_plain, of plain_toFixed 5] obtain out where
    o: "clusterNearbyMarkers plain_toFixed overview 5 = Inr out"
    and m: "\<forall>c\<in>set out. isCluster c \<longrightarrow>
       (\<exists>k. (k, members c) \<in> set (clusters (gridSize overview 5) overview) \<and>
          clusterPoints c = Some (filter (\<lambda>l. cellKey (gridSize overview 5) l = k) overview))"
    by blast
  have out: "out = [point ''a'' 0 0 (Some 5) (Some 4), overview_marker]"
    using o overview_out by simp
  have k: "\<exists>k. (k, members overview_marker) \<in> set (clusters (gridSize overview 5) overview) \<and>
      clusterPoints overview_marker =
        Some (filter (\<lambda>l. cellKey (gridSize overview 5) l = k) overview)"
    using m overview_marker_cluster unfolding out by simp
  have c: "clusterPoints overview_marker =
     Some [point ''b'' 1 1 (Some 10) (Some 1), point ''c'' 1 1 (Some 20) (Some 2),
           point ''d'' 1 1 None (Some 3)]"
    by (simp add: overview_marker_def)
  from overview_flags overview_out overview_marker_cluster k c show ?thesis by (intro conjI)
qed

subsection \<open>C10\<close>

text \<open>
  Claim C10 (output size bound). For plain input points the result is never longer than
  the input, and it is strictly shorter exactly when it contains a cluster marker.
\<close>

theorem output_size_bound:
  assumes "\<forall>p\<in>set locations. \<not> isCluster p"
  shows "\<exists>out. clusterNearbyMarkers toFixed locations zoomLevel = Inr out \<and>
           length out \<le> length locations \<and>
           (length out < length locations \<longleftrightarrow> (\<exists>c\<in>set out. isCluster c))"
proof -
  let ?cs = "Object_values (clusters (gridSize locations zoomLevel) locations)"
  have "\<forall>c\<in>set ?cs. c \<noteq> [] \<and> (\<forall>p\<in>set c. \<not> isCluster p)"
    using clusters_nonempty clusters_subset assms by blast
  from concat_emits_length [OF this, of toFixed zoomLevel]
  show ?thesis by (simp add: clusterNearbyMarkers_emits clusters_length)
qed

theorem output_size_bound_witness:
  "map isCluster overview = [False, False, False, False] \<and>
   clusterNearbyMarkers plain_toFixed overview 5 =
     Inr [point ''a'' 0 0 (Some 5) (Some 4), overview_marker] \<and>
   length [point ''a'' 0 0 (Some 5) (Some 4), overview_marker] < length overview \<and>
   (\<exists>c\<in>set [point ''a'' 0 0 (Some 5) (Some 4), overview_marker]. isCluster c) \<and>
   map isCluster detail = [False, False, False] \<and>
   clusterNearbyMarkers plain_toFixed detail 12 = Inr detail \<and>
   \<not> length detail < length detail \<and> \<not> (\<exists>c\<in>set detail. isCluster c)"
proof -
  from output_size_bound [OF overview_plain, of plain_toFixed 5] overview_out
  have a: "length [point ''a'' 0 0 (Some 5) (Some 4), overview_marker] \<le> length overview \<and>
     (length [point ''a'' 0 0 (Some 5) (Some 4), overview_marker] < length overview
        \<longleftrightarrow> (\<exists>c\<in>set [point ''a'' 0 0 (Some 5) (Some 4), overview_marker]. isCluster c))"
    by simp
  have "\<exists>c\<in>set [point ''a'' 0 0 (Some 5) (Some 4), overview_marker]. isCluster c"
    using overview_marker_cluster by simp
  with a have b: "length [point ''a'' 0 0 (Some 5) (Some 4), overview_marker] < length overview"
    "\<exists>c\<in>set [point ''a'' 0 0 (Some 5) (Some 4), overview_marker]. isCluster c" by simp_all
  from output_size_bound [OF detail_plain, of plain_toFixed 12] detail_out
  have c: "\<not> length detail < length detail" "\<not> (\<exists>c\<in>set detail. isCluster c)" by simp_all
  from overview_flags overview_out b detail_flags detail_out c show ?thesis by (intro conjI)
qed

end
